theory Spec2Isabelle
  imports Complex_Main "HOL-Library.AList"
begin

section \<open>Python values, exceptions and formatting\<close>

text \<open>
  The run-loop controller of \<^verbatim>\<open>bernard/core.py\<close> is embedded as a small-step machine
  over the statements of \<^verbatim>\<open>Bernard.run\<close>; the status snapshot \<^verbatim>\<open>BernardStatus\<close> and
  \<^verbatim>\<open>get_bernard_config\<close> are embedded as functions. Exceptions are values: a function that
  can raise returns \<open>exc + 'a\<close>, with \<open>Inl\<close> the exception.
\<close>

text \<open>
  The exception classes the file can meet. \<open>KeyboardInterrupt\<close> and \<open>SystemExit\<close> derive
  from \<open>BaseException\<close> only, so an \<^verbatim>\<open>except Exception\<close> clause does not catch them;
  \<^verbatim>\<open>sys.exit(n)\<close> raises \<open>SystemExit n\<close>.
\<close>

datatype exc =
    IOError | TypeError | NameError | AttributeError | UnboundLocalError
  | KeyError | IndexError | AssertionError | YAMLError | OtherException string
  | KeyboardInterrupt | SystemExit int

fun is_Exception :: "exc \<Rightarrow> bool" where
  "is_Exception KeyboardInterrupt = False"
| "is_Exception (SystemExit n) = False"
| "is_Exception e = True"

text \<open>
  The exit status of the process when the exception \<open>e\<close> leaves \<^verbatim>\<open>run\<close> uncaught:
  the argument of \<open>SystemExit\<close>, and 1 after a traceback otherwise.
\<close>

fun exit_status :: "exc \<Rightarrow> int" where
  "exit_status (SystemExit n) = n"
| "exit_status e = 1"

text \<open>
  Modelled from the spec: the constants \<^verbatim>\<open>S.OK\<close>, ... and \<^verbatim>\<open>R.OK\<close>, ... of
  \<^verbatim>\<open>bernard.check\<close>, which is not part of the sources; the data model lists the four
  execution statuses and the five result states. They are kept opaque: a value that is
  not one of these constants is taken to be different from all of them.
\<close>

datatype S = S_OK | S_TIMEOUT | S_EXCEPTION | S_INVALID_OUTPUT

datatype R = R_OK | R_WARNING | R_CRITICAL | R_UNKNOWN | R_NONE

text \<open>Python values as far as the snapshot needs them; a dict is an association list.\<close>

datatype pyval =
    PNone
  | PBool bool
  | PInt int
  | PStr string
  | PS S
  | PR R
  | PList "pyval list"
  | PDict "(string \<times> pyval) list"

type_synonym pydict = "(string \<times> pyval) list"

definition exc_bind :: "exc + 'a \<Rightarrow> ('a \<Rightarrow> exc + 'b) \<Rightarrow> exc + 'b" where
  "exc_bind m f = (case m of Inl e \<Rightarrow> Inl e | Inr x \<Rightarrow> f x)"

text \<open>\<^verbatim>\<open>d[k]\<close> on a dict with string keys: \<open>KeyError\<close> when the key is missing.\<close>

definition getitem :: "pydict \<Rightarrow> string \<Rightarrow> exc + pyval" where
  "getitem d k = (case map_of d k of None \<Rightarrow> Inl KeyError | Some v \<Rightarrow> Inr v)"

text \<open>Truth value of a Python value, as \<^verbatim>\<open>or\<close> tests it.\<close>

fun truthy :: "pyval \<Rightarrow> bool" where
  "truthy PNone = False"
| "truthy (PBool b) = b"
| "truthy (PInt n) = (n \<noteq> 0)"
| "truthy (PStr s) = (s \<noteq> [])"
| "truthy (PS s) = True"
| "truthy (PR r) = True"
| "truthy (PList xs) = (xs \<noteq> [])"
| "truthy (PDict d) = (d \<noteq> [])"

definition py_or :: "pyval \<Rightarrow> pyval \<Rightarrow> pyval" where
  "py_or a b = (if truthy a then a else b)"

text \<open>Decimal rendering of integers, as \<^verbatim>\<open>%d\<close> and \<^verbatim>\<open>str\<close> print them.\<close>

definition digit_char :: "nat \<Rightarrow> char" where
  "digit_char d = ''0123456789'' ! d"

fun show_nat :: "nat \<Rightarrow> string" where
  "show_nat n = (if n < 10 then [digit_char n] else show_nat (n div 10) @ [digit_char (n mod 10)])"

declare show_nat.simps [simp del]

definition show_int :: "int \<Rightarrow> string" where
  "show_int i = (if i < 0 then CHR ''-'' # show_nat (nat (- i)) else show_nat (nat i))"

text \<open>
  The functions of other modules that rendering calls: \<^verbatim>\<open>style\<close> of
  \<^verbatim>\<open>checks.check_status\<close>, and \<^verbatim>\<open>str\<close> on the values whose text this file does not
  determine (the constants of \<^verbatim>\<open>bernard.check\<close> and containers).
\<close>

record ext =
  style :: "pyval \<Rightarrow> string \<Rightarrow> string"
  str_other :: "pyval \<Rightarrow> string"

text \<open>\<^verbatim>\<open>'%s' % v\<close>.\<close>

fun fmt_s :: "ext \<Rightarrow> pyval \<Rightarrow> string" where
  "fmt_s x PNone = ''None''"
| "fmt_s x (PBool b) = (if b then ''True'' else ''False'')"
| "fmt_s x (PInt n) = show_int n"
| "fmt_s x (PStr s) = s"
| "fmt_s x v = str_other x v"

text \<open>\<^verbatim>\<open>'%d' % v\<close>: a \<open>TypeError\<close> unless \<open>v\<close> is a number.\<close>

fun fmt_d :: "pyval \<Rightarrow> exc + string" where
  "fmt_d (PInt n) = Inr (show_int n)"
| "fmt_d (PBool b) = Inr (if b then ''1'' else ''0'')"
| "fmt_d v = Inl TypeError"

text \<open>
  \<^verbatim>\<open>str.splitlines()\<close> of a byte string: lines end at \<^verbatim>\<open>\n\<close>, \<^verbatim>\<open>\r\<close> or \<^verbatim>\<open>\r\n\<close>, the
  line ends are dropped, and no empty line follows a final line end. \<open>cur\<close> holds the
  current line reversed; \<open>after_cr\<close> says that the previous character was a \<^verbatim>\<open>\r\<close>, whose
  line has been emitted already.
\<close>

fun splitlines_from :: "bool \<Rightarrow> string \<Rightarrow> string \<Rightarrow> string list" where
  "splitlines_from after_cr cur [] = (if cur = [] then [] else [rev cur])"
| "splitlines_from after_cr cur (c # cs) =
     (if c = CHR 0x0A then
        (if after_cr then splitlines_from False cur cs
         else rev cur # splitlines_from False [] cs)
      else if c = CHR 0x0D then rev cur # splitlines_from True [] cs
      else splitlines_from False (c # cur) cs)"

definition splitlines :: "string \<Rightarrow> string list" where
  "splitlines s = splitlines_from False [] s"

text \<open>\<^verbatim>\<open>v.splitlines()\<close>: only strings have the method.\<close>

fun py_splitlines :: "pyval \<Rightarrow> exc + string list" where
  "py_splitlines (PStr s) = Inr (splitlines s)"
| "py_splitlines v = Inl AttributeError"

text \<open>\<^verbatim>\<open>xs[0]\<close>.\<close>

fun index0 :: "'a list \<Rightarrow> exc + 'a" where
  "index0 [] = Inl IndexError"
| "index0 (x # xs) = Inr x"

section \<open>The status snapshot\<close>

text \<open>
  Modelled from the spec: a check of \<^verbatim>\<open>bernard.check\<close> (not part of the sources), of
  which the snapshot only calls \<^verbatim>\<open>get_status()\<close>; the check is represented by the dict
  that call returns.
\<close>

datatype check = Check (get_status: pydict)

record BernardStatus =
  check_stats :: "pydict list"
  schedule_count :: pyval

text \<open>\<^verbatim>\<open>BernardStatus.__init__(self, checks=[], schedule_count=0)\<close>.\<close>

definition BernardStatus_init :: "check list \<Rightarrow> pyval \<Rightarrow> BernardStatus" where
  "BernardStatus_init checks sc =
     \<lparr>check_stats = map get_status checks, schedule_count = sc\<rparr>"

text \<open>
  The two colour tables set by \<^verbatim>\<open>__init__\<close>, with \<^verbatim>\<open>TABLE[v]\<close> as the lookup: a
  \<open>TypeError\<close> for an unhashable key, a \<open>KeyError\<close> for a key that is not in the table.
\<close>

fun STATUS_COLOR :: "pyval \<Rightarrow> exc + string" where
  "STATUS_COLOR (PS S_OK) = Inr ''green''"
| "STATUS_COLOR (PS S_TIMEOUT) = Inr ''yellow''"
| "STATUS_COLOR (PS S_EXCEPTION) = Inr ''red''"
| "STATUS_COLOR (PS S_INVALID_OUTPUT) = Inr ''red''"
| "STATUS_COLOR (PList xs) = Inl TypeError"
| "STATUS_COLOR (PDict d) = Inl TypeError"
| "STATUS_COLOR v = Inl KeyError"

fun STATE_COLOR :: "pyval \<Rightarrow> exc + string" where
  "STATE_COLOR (PR R_OK) = Inr ''green''"
| "STATE_COLOR (PR R_WARNING) = Inr ''yellow''"
| "STATE_COLOR (PR R_CRITICAL) = Inr ''red''"
| "STATE_COLOR (PR R_UNKNOWN) = Inr ''yellow''"
| "STATE_COLOR (PR R_NONE) = Inr ''white''"
| "STATE_COLOR (PList xs) = Inl TypeError"
| "STATE_COLOR (PDict d) = Inl TypeError"
| "STATE_COLOR v = Inl KeyError"

text \<open>
  The body of the loop of \<^verbatim>\<open>body_lines\<close>: the two lines of one check, in the source's
  order of evaluation.
\<close>

definition check_lines :: "ext \<Rightarrow> pydict \<Rightarrow> exc + string list" where
  "check_lines x check =
     exc_bind (getitem check ''status'') (\<lambda>status0.
     exc_bind (STATUS_COLOR status0) (\<lambda>status_color.
     exc_bind (getitem check ''state'') (\<lambda>state0.
     exc_bind (STATE_COLOR state0) (\<lambda>state_color.
     exc_bind (getitem check ''check_name'') (\<lambda>name.
     exc_bind (getitem check ''status'') (\<lambda>status1.
     exc_bind (getitem check ''run_count'') (\<lambda>run_count.
     exc_bind (getitem check ''state'') (\<lambda>state1.
     exc_bind (fmt_d run_count) (\<lambda>run_count_text.
     exc_bind (getitem check ''message'') (\<lambda>message.
     exc_bind (py_splitlines (py_or message (PStr '' ''))) (\<lambda>message_lines.
     exc_bind (index0 message_lines) (\<lambda>first_line.
       Inr [''  '' @ fmt_s x name @ '': ['' @ style x status1 status_color @ ''] #''
              @ run_count_text @ '' run is '' @ style x state1 state_color,
            ''    '' @ first_line]))))))))))))"

fun check_loop :: "ext \<Rightarrow> string list \<Rightarrow> pydict list \<Rightarrow> exc + string list" where
  "check_loop x lines [] = Inr lines"
| "check_loop x lines (check # rest) =
     (case check_lines x check of
        Inl e \<Rightarrow> Inl e
      | Inr ls \<Rightarrow> check_loop x (lines @ ls) rest)"

definition body_lines :: "ext \<Rightarrow> BernardStatus \<Rightarrow> exc + string list" where
  "body_lines x self =
     check_loop x
       ([''Schedule count: '' @ fmt_s x (schedule_count self),
         ''Check count: '' @ show_nat (length (check_stats self))]
        @ ['''', ''Checks'', ''======'', ''''])
       (check_stats self)"

definition has_error :: "BernardStatus \<Rightarrow> bool" where
  "has_error self = False"

text \<open>
  \<^verbatim>\<open>to_dict\<close>: the dict of \<^verbatim>\<open>AgentStatus.to_dict\<close> (another module; here the parameter
  \<open>status_info\<close>) updated with the two entries of the snapshot.
\<close>

definition to_dict :: "pydict \<Rightarrow> BernardStatus \<Rightarrow> pydict" where
  "to_dict status_info self =
     AList.update ''schedule_count'' (schedule_count self)
       (AList.update ''checks'' (PList (map PDict (check_stats self))) status_info)"

section \<open>The outside world\<close>

text \<open>
  What the controller gets from outside the file. The clock and the scheduler are read
  through oracles: \<open>clock w k\<close> is the value of the \<open>k\<close>-th call of \<^verbatim>\<open>time.time()\<close> the
  controller makes, \<open>sched_wait_time w k\<close> the value of its \<open>k\<close>-th call of
  \<^verbatim>\<open>scheduler.wait_time()\<close>, and \<open>sched_checks w n\<close>, \<open>sched_schedule_count w n\<close> are the
  scheduler's \<^verbatim>\<open>checks\<close> and \<^verbatim>\<open>schedule_count\<close> after \<open>n\<close> calls of \<^verbatim>\<open>process()\<close>.
  Timestamps and durations are exact reals; the rounding of doubles is not modelled.
  \<open>config_path\<close> is the value of \<^verbatim>\<open>get_config_path(...)\<close>, \<open>files\<close> the content of the
  files that can be opened, and \<open>yaml_load\<close> the parser, which returns the document or
  fails with a \<open>YAMLError\<close> (\<open>None\<close> here). \<open>RESTART_EXIT_STATUS\<close> is the attribute of that
  name of \<^verbatim>\<open>AgentSupervisor\<close> in the module \<^verbatim>\<open>daemon\<close>.
\<close>

record env =
  clock :: "nat \<Rightarrow> real"
  sched_wait_time :: "nat \<Rightarrow> real"
  sched_checks :: "nat \<Rightarrow> check list"
  sched_schedule_count :: "nat \<Rightarrow> pyval"
  config_path :: pyval
  files :: "string \<Rightarrow> string option"
  yaml_load :: "string \<Rightarrow> pyval option"
  RESTART_EXIT_STATUS :: int

datatype level = DEBUG | INFO | ERROR

text \<open>The calls with an effect outside the controller, in the order they are made.\<close>

datatype event =
    Log level string
  | WatchdogReset "int option"
  | SchedulerFromConfig string pyval
  | Persist BernardStatus
  | SchedulerProcess
  | Sleep real
  | RemoveLatestStatus

fun is_Persist :: "event \<Rightarrow> bool" where
  "is_Persist (Persist st) = True"
| "is_Persist e = False"

section \<open>Loading the configuration\<close>

definition RESTART_INTERVAL :: int where
  "RESTART_INTERVAL = 4 * 24 * 60 * 60"

definition BERNARD_CONF :: string where
  "BERNARD_CONF = ''bernard.yaml''"

text \<open>
  \<^verbatim>\<open>open(config_path)\<close>: a \<open>TypeError\<close> when the path is not a string, an \<open>IOError\<close>
  when the file cannot be opened, and otherwise the file, given by its path and the
  content that \<^verbatim>\<open>f.read()\<close> returns.
\<close>

fun open_file :: "env \<Rightarrow> pyval \<Rightarrow> exc + string \<times> string" where
  "open_file w (PStr path) =
     (case files w path of None \<Rightarrow> Inl IOError | Some content \<Rightarrow> Inr (path, content))"
| "open_file w v = Inl TypeError"

text \<open>The body of the second \<^verbatim>\<open>try\<close>: parse, then \<^verbatim>\<open>assert bernard_config is not None\<close>.\<close>

definition parse_config :: "env \<Rightarrow> string \<Rightarrow> exc + pyval" where
  "parse_config w content =
     (case yaml_load w content of
        None \<Rightarrow> Inl YAMLError
      | Some bernard_config \<Rightarrow>
          if bernard_config = PNone then Inl AssertionError else Inr bernard_config)"

text \<open>
  \<^verbatim>\<open>get_bernard_config()\<close>: the log records it writes and its result. The first handler
  is \<^verbatim>\<open>except (IOError, TypeError)\<close>, the second \<^verbatim>\<open>except Exception\<close>.
\<close>

definition get_bernard_config :: "env \<Rightarrow> event list \<times> (exc + pyval)" where
  "get_bernard_config w =
     (case open_file w (config_path w) of
        Inl e \<Rightarrow>
          if e = IOError \<or> e = TypeError
          then ([Log INFO (''Bernard isn't configured: can't find '' @ BERNARD_CONF)],
                Inr (PDict []))
          else ([], Inl e)
      | Inr (path, content) \<Rightarrow>
          (case parse_config w content of
             Inl e \<Rightarrow>
               if is_Exception e
               then ([Log ERROR (''Unable to parse yaml config in '' @ path)], Inr (PDict []))
               else ([], Inl e)
           | Inr bernard_config \<Rightarrow> ([], Inr bernard_config)))"

section \<open>The controller\<close>

datatype signal = SIGTERM | SIGUSR1 | SIGINT

datatype handler = H_sigterm | H_sigusr1

text \<open>
  The statements of \<^verbatim>\<open>Bernard.run\<close>, named by the line they start at: 54, 57 and 60
  install the handlers, 63 to 72 are the rest of the start-up, 75 is the test of the
  \<^verbatim>\<open>while\<close>, 77 to 97 its body, 100 and 104 the clean-up and the exit.
\<close>

datatype pc =
    L54 | L57 | L60 | L63 | L64 | L67 | L68 | L71 | L72
  | L75 | L77 | L79 | L82 | L86 | L93 | L95 | L97
  | L100 | L104

fun pc_index :: "pc \<Rightarrow> nat" where
  "pc_index L54 = 0" | "pc_index L57 = 1" | "pc_index L60 = 2" | "pc_index L63 = 3"
| "pc_index L64 = 4" | "pc_index L67 = 5" | "pc_index L68 = 6" | "pc_index L71 = 7"
| "pc_index L72 = 8" | "pc_index L75 = 9" | "pc_index L77 = 10" | "pc_index L79 = 11"
| "pc_index L82 = 12" | "pc_index L86 = 13" | "pc_index L93 = 14" | "pc_index L95 = 15"
| "pc_index L97 = 16" | "pc_index L100 = 17" | "pc_index L104 = 18"

text \<open>
  The controller: the attributes of the \<^verbatim>\<open>Bernard\<close> object and the locals of \<^verbatim>\<open>run\<close>
  (\<open>None\<close> while not yet assigned), the handlers installed so far, the number of calls
  made to each oracle, the events so far, and the exception that has ended the process,
  if any.
\<close>

record bernard =
  pc :: pc
  run_forever :: bool
  autorestart :: bool
  start_event :: bool
  hostname :: string
  scheduler :: "(string \<times> pyval) option"
  handlers :: "signal \<Rightarrow> handler option"
  bernard_config :: "pyval option"
  last_info_update :: "real option"
  restart_interval :: "int option"
  agent_start :: "real option"
  wait_time :: "real option"
  clock_reads :: nat
  wait_time_calls :: nat
  process_calls :: nat
  events :: "event list"
  raised :: "exc option"

text \<open>
  \<^verbatim>\<open>Bernard.__init__(self, pidfile, hostname, autorestart, start_event=True)\<close>; the pidfile
  goes to \<^verbatim>\<open>Daemon.__init__\<close> only.
\<close>

definition Bernard_init :: "string \<Rightarrow> string \<Rightarrow> bool \<Rightarrow> bool \<Rightarrow> bernard" where
  "Bernard_init pidfile hostname0 autorestart0 start_event0 =
     \<lparr>pc = L54, run_forever = True, autorestart = autorestart0, start_event = start_event0,
      hostname = hostname0, scheduler = None, handlers = (\<lambda>s. None), bernard_config = None,
      last_info_update = None, restart_interval = None, agent_start = None,
      wait_time = None, clock_reads = 0, wait_time_calls = 0, process_calls = 0,
      events = [WatchdogReset None], raised = None\<rparr>"

definition emit :: "event \<Rightarrow> bernard \<Rightarrow> bernard" where
  "emit e c = c\<lparr>events := events c @ [e]\<rparr>"

definition raise_exc :: "exc \<Rightarrow> bernard \<Rightarrow> bernard" where
  "raise_exc e c = c\<lparr>raised := Some e\<rparr>"

definition goto :: "pc \<Rightarrow> bernard \<Rightarrow> bernard" where
  "goto l c = c\<lparr>pc := l\<rparr>"

text \<open>
  The names bound in the module's global namespace: those its \<^verbatim>\<open>import\<close> statements
  bind and those it defines at top level. A name that is read but is not among them
  (nor a builtin) raises \<open>NameError\<close>.
\<close>

definition module_globals :: "string list" where
  "module_globals =
     [''logging'', ''signal'', ''sys'', ''time'', ''Daemon'', ''StaticWatchdog'', ''get_os'',
      ''yaml'', ''yLoader'', ''AgentStatus'', ''style'', ''get_config_path'', ''R'', ''S'',
      ''Scheduler'', ''RESTART_INTERVAL'', ''BERNARD_CONF'', ''log'', ''Bernard'',
      ''BernardStatus'', ''get_bernard_config'']"

text \<open>\<^verbatim>\<open>_handle_sigterm\<close>.\<close>

definition handle_sigterm :: "bernard \<Rightarrow> bernard" where
  "handle_sigterm c =
     (emit (Log DEBUG ''Caught sigterm. Stopping run loop.'') c)\<lparr>run_forever := False\<rparr>"

text \<open>
  \<^verbatim>\<open>_do_restart\<close>: the log record, then \<^verbatim>\<open>sys.exit(AgentSupervisor.RESTART_EXIT_STATUS)\<close>,
  whose argument is evaluated first.
\<close>

definition do_restart :: "env \<Rightarrow> bernard \<Rightarrow> bernard" where
  "do_restart w c =
     (let c1 = emit (Log INFO ''Running an auto-restart.'') c
      in if ''AgentSupervisor'' \<in> set module_globals
         then raise_exc (SystemExit (RESTART_EXIT_STATUS w)) c1
         else raise_exc NameError c1)"

text \<open>\<^verbatim>\<open>_handle_sigusr1\<close>.\<close>

definition handle_sigusr1 :: "env \<Rightarrow> bernard \<Rightarrow> bernard" where
  "handle_sigusr1 w c = do_restart w (handle_sigterm c)"

text \<open>\<^verbatim>\<open>_should_restart\<close>: its result and the controller after the call of the clock.\<close>

definition should_restart :: "env \<Rightarrow> bernard \<Rightarrow> (exc + bool) \<times> bernard" where
  "should_restart w c =
     (let now = clock w (clock_reads c);
          c1 = c\<lparr>clock_reads := Suc (clock_reads c)\<rparr>
      in case agent_start c of
           None \<Rightarrow> (Inl AttributeError, c1)
         | Some start \<Rightarrow>
             (case restart_interval c of
                None \<Rightarrow> (Inl AttributeError, c1)
              | Some interval \<Rightarrow> (Inr (now - start > real_of_int interval), c1)))"

text \<open>\<^verbatim>\<open>int(x)\<close> of a float: truncation towards zero.\<close>

definition py_int :: "real \<Rightarrow> int" where
  "py_int x = (if 0 \<le> x then \<lfloor>x\<rfloor> else \<lceil>x\<rceil>)"

text \<open>
  Lines 87 to 89: a snapshot of the scheduler's checks and schedule count is persisted,
  then \<^verbatim>\<open>last_info_update\<close> gets a new reading of the clock.
\<close>

definition update_status :: "env \<Rightarrow> bernard \<Rightarrow> bernard" where
  "update_status w c =
     (case scheduler c of
        None \<Rightarrow> raise_exc AttributeError c
      | Some sch \<Rightarrow>
          (emit (Persist (BernardStatus_init (sched_checks w (process_calls c))
                            (sched_schedule_count w (process_calls c)))) c)
            \<lparr>last_info_update := Some (clock w (clock_reads c)),
             clock_reads := Suc (clock_reads c)\<rparr>)"

text \<open>
  One statement of \<^verbatim>\<open>run\<close>. Calls into other modules are taken to return: the scheduler's
  \<^verbatim>\<open>process\<close> and \<^verbatim>\<open>wait_time\<close>, \<^verbatim>\<open>persist\<close>, the watchdog and \<^verbatim>\<open>time.sleep\<close> raise
  nothing here.
\<close>

fun exec_stmt :: "env \<Rightarrow> pc \<Rightarrow> bernard \<Rightarrow> bernard" where
  "exec_stmt w L54 c = goto L57 (c\<lparr>handlers := (handlers c)(SIGTERM \<mapsto> H_sigterm)\<rparr>)"
| "exec_stmt w L57 c = goto L60 (c\<lparr>handlers := (handlers c)(SIGUSR1 \<mapsto> H_sigusr1)\<rparr>)"
| "exec_stmt w L60 c = goto L63 (c\<lparr>handlers := (handlers c)(SIGINT \<mapsto> H_sigterm)\<rparr>)"
| "exec_stmt w L63 c =
     (case get_bernard_config w of
        (logs, Inl e) \<Rightarrow> raise_exc e (c\<lparr>events := events c @ logs\<rparr>)
      | (logs, Inr v) \<Rightarrow> goto L64 (c\<lparr>events := events c @ logs, bernard_config := Some v\<rparr>))"
| "exec_stmt w L64 c =
     (case bernard_config c of
        None \<Rightarrow> raise_exc UnboundLocalError c
      | Some v \<Rightarrow>
          goto L67 (emit (SchedulerFromConfig (hostname c) v)
                      (c\<lparr>scheduler := Some (hostname c, v)\<rparr>)))"
| "exec_stmt w L67 c =
     (case scheduler c of
        None \<Rightarrow> raise_exc AttributeError c
      | Some sch \<Rightarrow>
          goto L68 (emit (Persist (BernardStatus_init (sched_checks w (process_calls c))
                                     (PInt 0))) c))"
| "exec_stmt w L68 c =
     goto L71 (c\<lparr>last_info_update := Some (clock w (clock_reads c)),
                 clock_reads := Suc (clock_reads c)\<rparr>)"
| "exec_stmt w L71 c = goto L72 (c\<lparr>restart_interval := Some RESTART_INTERVAL\<rparr>)"
| "exec_stmt w L72 c =
     goto L75 (c\<lparr>agent_start := Some (clock w (clock_reads c)),
                 clock_reads := Suc (clock_reads c)\<rparr>)"
| "exec_stmt w L75 c = (if run_forever c then goto L77 c else goto L100 c)"
| "exec_stmt w L77 c =
     (case scheduler c of
        None \<Rightarrow> raise_exc AttributeError c
      | Some sch \<Rightarrow>
          goto L79 (emit SchedulerProcess (c\<lparr>process_calls := Suc (process_calls c)\<rparr>)))"
| "exec_stmt w L79 c =
     (case scheduler c of
        None \<Rightarrow> raise_exc AttributeError c
      | Some sch \<Rightarrow>
          goto L82 (c\<lparr>wait_time := Some (sched_wait_time w (wait_time_calls c)),
                      wait_time_calls := Suc (wait_time_calls c)\<rparr>))"
| "exec_stmt w L82 c =
     (if autorestart c then
        (case should_restart w c of
           (Inl e, c1) \<Rightarrow> raise_exc e c1
         | (Inr True, c1) \<Rightarrow> do_restart w c1
         | (Inr False, c1) \<Rightarrow> goto L86 c1)
      else goto L86 c)"
| "exec_stmt w L86 c =
     (let now = clock w (clock_reads c);
          c1 = c\<lparr>clock_reads := Suc (clock_reads c)\<rparr>
      in case last_info_update c of
           None \<Rightarrow> raise_exc AttributeError c1
         | Some last_update \<Rightarrow>
             if now > last_update + 10 then goto L93 (update_status w c1)
             else (case wait_time c of
                     None \<Rightarrow> raise_exc UnboundLocalError c1
                   | Some wt \<Rightarrow>
                       if wt > 10 then goto L93 (update_status w c1) else goto L93 c1))"
| "exec_stmt w L93 c = (if run_forever c then goto L95 c else goto L75 c)"
| "exec_stmt w L95 c =
     (case wait_time c of
        None \<Rightarrow> raise_exc UnboundLocalError c
      | Some wt \<Rightarrow> goto L97 (emit (WatchdogReset (Some (py_int wt))) c))"
| "exec_stmt w L97 c =
     (case scheduler c of
        None \<Rightarrow> raise_exc AttributeError c
      | Some sch \<Rightarrow>
          goto L75 (emit (Sleep (sched_wait_time w (wait_time_calls c)))
                      (c\<lparr>wait_time_calls := Suc (wait_time_calls c)\<rparr>)))"
| "exec_stmt w L100 c = goto L104 (emit RemoveLatestStatus c)"
| "exec_stmt w L104 c = raise_exc (SystemExit 0) (emit (Log INFO ''Exiting. Bye bye.'') c)"

text \<open>One step of the process: nothing happens once an exception has ended it.\<close>

definition step :: "env \<Rightarrow> bernard \<Rightarrow> bernard" where
  "step w c = (case raised c of None \<Rightarrow> exec_stmt w (pc c) c | Some e \<Rightarrow> c)"

fun steps :: "env \<Rightarrow> nat \<Rightarrow> bernard \<Rightarrow> bernard" where
  "steps w 0 c = c"
| "steps w (Suc n) c = steps w n (step w c)"

text \<open>
  The delivery of a signal between two statements: the handler that \<^verbatim>\<open>run\<close> has
  installed runs. The result is \<open>None\<close> where this file does not say what happens: the
  process has ended, or \<^verbatim>\<open>run\<close> has not installed a handler for the signal yet.
\<close>

definition deliver :: "env \<Rightarrow> signal \<Rightarrow> bernard \<Rightarrow> bernard option" where
  "deliver w s c =
     (case raised c of
        Some e \<Rightarrow> None
      | None \<Rightarrow>
          (case handlers c s of
             None \<Rightarrow> None
           | Some H_sigterm \<Rightarrow> Some (handle_sigterm c)
           | Some H_sigusr1 \<Rightarrow> Some (handle_sigusr1 w c)))"

text \<open>
  An execution is a sequence of actions, each a statement of the program or the
  delivery of a signal.
\<close>

datatype action = Step | Signal signal

fun run :: "env \<Rightarrow> action list \<Rightarrow> bernard \<Rightarrow> bernard option" where
  "run w [] c = Some c"
| "run w (Step # acts) c = run w acts (step w c)"
| "run w (Signal s # acts) c =
     (case deliver w s c of None \<Rightarrow> None | Some c' \<Rightarrow> run w acts c')"

text \<open>The events of \<open>d\<close> that came after those of \<open>c\<close>.\<close>

definition events_since :: "bernard \<Rightarrow> bernard \<Rightarrow> event list" where
  "events_since c d = drop (length (events c)) (events d)"

section \<open>Notions the properties are stated with\<close>

text \<open>
  The last expression of the loop of \<^verbatim>\<open>body_lines\<close>,
  \<^verbatim>\<open>(check['message'] or ' ').splitlines()[0]\<close>, as a function of the message.
\<close>

definition first_line :: "pyval \<Rightarrow> exc + string" where
  "first_line message = exc_bind (py_splitlines (py_or message (PStr '' ''))) index0"

text \<open>
  A check stat that conforms to the data model: a status and a state among the
  constants, a name, a run count that is a non-negative integer, and a message that is
  a string or \<^verbatim>\<open>None\<close>.
\<close>

definition conforms :: "pydict \<Rightarrow> bool" where
  "conforms check =
     ((case map_of check ''status'' of Some (PS s) \<Rightarrow> True | _ \<Rightarrow> False)
      \<and> (case map_of check ''state'' of Some (PR r) \<Rightarrow> True | _ \<Rightarrow> False)
      \<and> (case map_of check ''check_name'' of Some (PStr n) \<Rightarrow> True | _ \<Rightarrow> False)
      \<and> (case map_of check ''run_count'' of Some (PInt n) \<Rightarrow> 0 \<le> n | _ \<Rightarrow> False)
      \<and> (case map_of check ''message'' of
            Some PNone \<Rightarrow> True | Some (PStr m) \<Rightarrow> True | _ \<Rightarrow> False))"

text \<open>The configuration file is missing: no path, or no file that opens at the path.\<close>

definition config_missing :: "env \<Rightarrow> bool" where
  "config_missing w =
     (case config_path w of PStr path \<Rightarrow> files w path = None | _ \<Rightarrow> True)"

text \<open>The configuration file opens and the parser fails on its content.\<close>

definition config_unparsable :: "env \<Rightarrow> bool" where
  "config_unparsable w =
     (case config_path w of
        PStr path \<Rightarrow>
          (case files w path of None \<Rightarrow> False | Some content \<Rightarrow> yaml_load w content = None)
      | _ \<Rightarrow> False)"

text \<open>Two checks, and a \<^verbatim>\<open>style\<close> that prints the name of the constant without colour.\<close>

definition check_A :: check where
  "check_A = Check [(''check_name'', PStr ''A''), (''status'', PS S_OK), (''state'', PR R_OK),
                    (''run_count'', PInt 5), (''message'', PNone)]"

definition check_B :: check where
  "check_B = Check [(''check_name'', PStr ''B''), (''status'', PS S_TIMEOUT),
                    (''state'', PR R_WARNING), (''run_count'', PInt 2),
                    (''message'', PStr ''slow'')]"

definition plain :: ext where
  "plain = \<lparr>style = (\<lambda>v colour. case v of PS S_OK \<Rightarrow> ''OK'' | PS S_TIMEOUT \<Rightarrow> ''TIMEOUT''
                        | PR R_OK \<Rightarrow> ''OK'' | PR R_WARNING \<Rightarrow> ''WARNING'' | _ \<Rightarrow> ''?''),
            str_other = (\<lambda>v. ''?'')\<rparr>"

text \<open>
  What holds of the controller at every point of an execution: an attribute or local is
  set once the statement that assigns it is passed, and a handler installed for a signal
  is the one \<^verbatim>\<open>run\<close> installs for it.
\<close>

definition ready :: "bernard \<Rightarrow> bool" where
  "ready c =
     ((3 < pc_index (pc c) \<longrightarrow> bernard_config c \<noteq> None)
      \<and> (4 < pc_index (pc c) \<longrightarrow> scheduler c \<noteq> None)
      \<and> (6 < pc_index (pc c) \<longrightarrow> last_info_update c \<noteq> None)
      \<and> (7 < pc_index (pc c) \<longrightarrow> restart_interval c \<noteq> None)
      \<and> (8 < pc_index (pc c) \<longrightarrow> agent_start c \<noteq> None)
      \<and> (pc c \<in> {L82, L86, L93, L95} \<longrightarrow> wait_time c \<noteq> None)
      \<and> handlers c SIGTERM \<noteq> Some H_sigusr1
      \<and> handlers c SIGINT \<noteq> Some H_sigusr1
      \<and> handlers c SIGUSR1 \<noteq> Some H_sigterm)"

text \<open>
  Worlds to run the controller in. In \<open>quiet_world\<close> there is no configuration file, the
  clock advances by one second at each reading and the scheduler always asks for a
  wait of three seconds. \<open>broken_yaml_world\<close> has a configuration file that the parser
  rejects.
\<close>

definition quiet_world :: env where
  "quiet_world =
     \<lparr>clock = (\<lambda>k. real k), sched_wait_time = (\<lambda>k. 3),
      sched_checks = (\<lambda>n. [check_A, check_B]), sched_schedule_count = (\<lambda>n. PInt (int n)),
      config_path = PNone, files = (\<lambda>path. None), yaml_load = (\<lambda>content. None),
      RESTART_EXIT_STATUS = 5\<rparr>"

definition broken_yaml_world :: env where
  "broken_yaml_world =
     quiet_world\<lparr>config_path := PStr ''/etc/dd-agent/bernard.yaml'',
                 files := [''/etc/dd-agent/bernard.yaml'' \<mapsto> ''checks: [''],
                 yaml_load := (\<lambda>content. None)\<rparr>"

text \<open>
  What the start-up has recorded once its statements are passed: the restart interval
  and, as the start time, the second reading of the clock (the first went to
  \<^verbatim>\<open>last_info_update\<close>).
\<close>

definition started :: "env \<Rightarrow> bernard \<Rightarrow> bool" where
  "started w c =
     ((7 < pc_index (pc c) \<longrightarrow> restart_interval c = Some 345600)
      \<and> (8 < pc_index (pc c) \<longrightarrow> agent_start c = Some (clock w 1))
      \<and> (pc_index (pc c) < 7 \<longrightarrow> clock_reads c = 0)
      \<and> (pc c = L71 \<longrightarrow> clock_reads c = Suc 0)
      \<and> (pc c = L72 \<longrightarrow> clock_reads c = Suc 0))"

text \<open>The order in which \<^verbatim>\<open>last_info_update\<close> may move: from unset to anything, or up.\<close>

fun no_smaller :: "real option \<Rightarrow> real option \<Rightarrow> bool" where
  "no_smaller None y = True"
| "no_smaller (Some a) None = False"
| "no_smaller (Some a) (Some b) = (a \<le> b)"

text \<open>The last persisted time is not ahead of the next reading of the clock.\<close>

definition not_ahead :: "env \<Rightarrow> bernard \<Rightarrow> bool" where
  "not_ahead w c =
     (case last_info_update c of None \<Rightarrow> True | Some l \<Rightarrow> l \<le> clock w (clock_reads c))"

text \<open>
  \<open>busy_world\<close>: twenty seconds pass between two readings of the clock. \<open>daemon\<close> is the
  controller as the agent creates it, with the automatic restart switched off or on.
\<close>

definition busy_world :: env where
  "busy_world = quiet_world\<lparr>clock := (\<lambda>k. 20 * real k)\<rparr>"

definition daemon :: "bool \<Rightarrow> bernard" where
  "daemon autorestart0 = Bernard_init ''/tmp/bernard.pid'' ''host'' autorestart0 True"

text \<open>
  The tests the loop makes, as they would come out at the controller's next reading of
  the clock: the age test of \<^verbatim>\<open>_should_restart\<close> and the test of line 86.
\<close>

definition age_exceeded :: "env \<Rightarrow> bernard \<Rightarrow> bool" where
  "age_exceeded w c =
     (case agent_start c of
        None \<Rightarrow> False
      | Some start \<Rightarrow>
          (case restart_interval c of
             None \<Rightarrow> False
           | Some interval \<Rightarrow> clock w (clock_reads c) - start > real_of_int interval))"

definition status_due :: "env \<Rightarrow> bernard \<Rightarrow> bool" where
  "status_due w c =
     (case last_info_update c of
        None \<Rightarrow> False
      | Some last_update \<Rightarrow>
          (case wait_time c of
             None \<Rightarrow> False
           | Some wt \<Rightarrow> clock w (clock_reads c) > last_update + 10 \<or> wt > 10))"

text \<open>The restart transition is taken between \<open>c\<close> and \<open>d\<close>: \<^verbatim>\<open>_do_restart\<close> runs and ends the process.\<close>

definition restart_taken :: "bernard \<Rightarrow> bernard \<Rightarrow> bool" where
  "restart_taken c d =
     (raised d \<noteq> None \<and> events_since c d = [Log INFO ''Running an auto-restart.''])"

text \<open>
  The watchdog is reset with a margin of at least \<open>wt\<close> and then the process sleeps for
  \<open>wt\<close>, and the events are just these two.
\<close>

fun covers_sleep :: "real \<Rightarrow> event list \<Rightarrow> bool" where
  "covers_sleep wt [WatchdogReset (Some margin), Sleep duration] =
     (wt \<le> real_of_int margin \<and> duration = wt)"
| "covers_sleep wt evs = False"

text \<open>The last event that is not a log record.\<close>

fun is_Log :: "event \<Rightarrow> bool" where
  "is_Log (Log l m) = True"
| "is_Log e = False"

fun last_action :: "event list \<Rightarrow> event option" where
  "last_action [] = None"
| "last_action (e # es) =
     (case last_action es of
        Some a \<Rightarrow> Some a
      | None \<Rightarrow> if is_Log e then None else Some e)"

text \<open>
  \<open>overdue_world\<close>: the agent is older than the restart interval at the first iteration
  and the scheduler asks for a wait of eleven seconds. \<open>fraction_world\<close>: the scheduler
  asks for 3.7 seconds at its first call and for 3.2 seconds at the following ones.
\<close>

definition overdue_world :: env where
  "overdue_world =
     quiet_world\<lparr>clock := (\<lambda>k. if k < 2 then 0 else 345601 + real k),
                 sched_wait_time := (\<lambda>k. 11)\<rparr>"

definition fraction_world :: env where
  "fraction_world =
     quiet_world\<lparr>sched_wait_time := (\<lambda>k. if k = 0 then 37 / 10 else 16 / 5)\<rparr>"

text \<open>
  Once the removal of the snapshot is passed, it is the last thing the controller has
  done apart from logging.
\<close>

definition cleaned :: "bernard \<Rightarrow> bool" where
  "cleaned c = (pc c = L104 \<longrightarrow> last_action (events c) = Some RemoveLatestStatus)"

text \<open>
  The automatic restart is pending: the test of the age is still ahead in the current
  iteration, and it will succeed.
\<close>

definition restart_pending :: "env \<Rightarrow> bernard \<Rightarrow> bool" where
  "restart_pending w c = (pc c \<in> {L77, L79, L82} \<and> autorestart c \<and> age_exceeded w c)"

text \<open>
  A controller that has been told to stop and is on its way out; the number of
  statements it still executes, and the number of scheduler steps among them.
\<close>

definition stopping :: "env \<Rightarrow> bernard \<Rightarrow> bool" where
  "stopping w c =
     (ready c \<and> cleaned c \<and> raised c = None \<and> \<not> run_forever c \<and> \<not> restart_pending w c)"

fun statements_left :: "pc \<Rightarrow> nat" where
  "statements_left L54 = 12" | "statements_left L57 = 11" | "statements_left L60 = 10"
| "statements_left L63 = 9" | "statements_left L64 = 8" | "statements_left L67 = 7"
| "statements_left L68 = 6" | "statements_left L71 = 5" | "statements_left L72 = 4"
| "statements_left L75 = 3" | "statements_left L77 = 8" | "statements_left L79 = 7"
| "statements_left L82 = 6" | "statements_left L86 = 5" | "statements_left L93 = 4"
| "statements_left L95 = 5" | "statements_left L97 = 4" | "statements_left L100 = 2"
| "statements_left L104 = 1"

definition scheduler_steps_left :: "pc \<Rightarrow> nat" where
  "scheduler_steps_left l = (if l = L77 then 1 else 0)"

definition exited_cleanly :: "bernard \<Rightarrow> bernard \<Rightarrow> bool" where
  "exited_cleanly c d =
     (raised d = Some (SystemExit 0)
      \<and> last_action (events d) = Some RemoveLatestStatus
      \<and> count_list (events d) SchedulerProcess
          = count_list (events c) SchedulerProcess + scheduler_steps_left (pc c))"

section \<open>Rendering and serialising the snapshot\<close>

lemma splitlines_from_nonempty:
  "cur \<noteq> [] \<or> (s \<noteq> [] \<and> \<not> a) \<Longrightarrow> splitlines_from a cur s \<noteq> []"
  by (induction s arbitrary: a cur) auto

lemma splitlines_nonempty: "s \<noteq> [] \<Longrightarrow> splitlines s \<noteq> []"
  by (simp add: splitlines_def splitlines_from_nonempty)

lemma first_line_blank: "first_line PNone = Inr '' ''" "first_line (PStr []) = Inr '' ''"
  by (simp_all add: first_line_def py_or_def exc_bind_def splitlines_def)

lemma first_line_str: "\<exists>l. first_line (PStr s) = Inr l"
proof (cases "s = []")
  case True
  then show ?thesis by (simp add: first_line_blank)
next
  case False
  then obtain l ls where "splitlines s = l # ls"
    using splitlines_nonempty [of s] by (cases "splitlines s") auto
  with False show ?thesis
    by (simp add: first_line_def py_or_def exc_bind_def)
qed

lemma status_color_total: "\<exists>col. STATUS_COLOR (PS s) = Inr col"
  by (cases s) simp_all

lemma state_color_total: "\<exists>col. STATE_COLOR (PR r) = Inr col"
  by (cases r) simp_all

text \<open>The two lines of a check, with the repeated lookups merged.\<close>

lemma check_lines_first_line:
  "check_lines x check =
     exc_bind (getitem check ''status'') (\<lambda>status0.
     exc_bind (STATUS_COLOR status0) (\<lambda>status_color.
     exc_bind (getitem check ''state'') (\<lambda>state0.
     exc_bind (STATE_COLOR state0) (\<lambda>state_color.
     exc_bind (getitem check ''check_name'') (\<lambda>name.
     exc_bind (getitem check ''run_count'') (\<lambda>run_count.
     exc_bind (fmt_d run_count) (\<lambda>run_count_text.
     exc_bind (getitem check ''message'') (\<lambda>message.
     exc_bind (first_line message) (\<lambda>l.
       Inr [''  '' @ fmt_s x name @ '': ['' @ style x status0 status_color @ ''] #''
              @ run_count_text @ '' run is '' @ style x state0 state_color,
            ''    '' @ l])))))))))"
  by (auto simp: check_lines_def first_line_def exc_bind_def split: sum.splits)

lemma check_lines_conforms:
  assumes "conforms check"
  shows "\<exists>a b. check_lines x check = Inr [a, b]"
proof -
  from assms obtain s r n k where
    f: "map_of check ''status'' = Some (PS s)" "map_of check ''state'' = Some (PR r)"
       "map_of check ''check_name'' = Some (PStr n)" "map_of check ''run_count'' = Some (PInt k)"
    by (auto simp: conforms_def split: option.splits pyval.splits)
  from assms obtain m where m: "map_of check ''message'' = Some m" "m = PNone \<or> (\<exists>t. m = PStr t)"
    by (auto simp: conforms_def split: option.splits pyval.splits)
  obtain c1 where c1: "STATUS_COLOR (PS s) = Inr c1" using status_color_total by blast
  obtain c2 where c2: "STATE_COLOR (PR r) = Inr c2" using state_color_total by blast
  obtain l where l: "first_line m = Inr l"
    using m(2) first_line_str first_line_blank(1) by blast
  show ?thesis
    by (simp add: check_lines_first_line getitem_def exc_bind_def f m(1) c1 c2 l)
qed

lemma check_loop_conforms:
  "list_all conforms cs \<Longrightarrow>
   \<exists>ls. check_loop x acc cs = Inr ls \<and> length ls = length acc + 2 * length cs"
proof (induction cs arbitrary: acc)
  case Nil
  then show ?case by simp
next
  case (Cons c cs)
  then obtain a b where ab: "check_lines x c = Inr [a, b]"
    using check_lines_conforms [of c x] by auto
  from Cons.prems have "list_all conforms cs" by simp
  from Cons.IH [OF this, of "acc @ [a, b]"] ab show ?case by auto
qed

lemma body_lines_conforms:
  assumes "list_all conforms (check_stats self)"
  shows "\<exists>ls. body_lines x self = Inr ls \<and> length ls = 6 + 2 * length (check_stats self)"
proof -
  define acc where "acc = [''Schedule count: '' @ fmt_s x (schedule_count self),
               ''Check count: '' @ show_nat (length (check_stats self))]
              @ [[], ''Checks'', ''======'', []]"
  have len: "length acc = 6" by (simp add: acc_def)
  from check_loop_conforms [OF assms, of x acc]
  obtain ls where "check_loop x acc (check_stats self) = Inr ls"
    "length ls = length acc + 2 * length (check_stats self)" by blast
  then show ?thesis unfolding body_lines_def acc_def [symmetric] using len by simp
qed

text \<open>
  C10. Rendering a snapshot never fails on check stats that conform to the data model:
  the lookup in the status colour table succeeds for each of the four status constants
  and the lookup in the state colour table for each of the five state constants; a
  message that is \<^verbatim>\<open>None\<close> or empty is replaced by a single space, whose first line is
  that space, and every string message has a first line; so \<^verbatim>\<open>body_lines\<close> returns its
  lines, six for the header and two for each check. An absent message is the value
  \<^verbatim>\<open>None\<close> under the key \<^verbatim>\<open>message\<close>.
\<close>

theorem body_lines_total:
  "(\<forall>s. \<exists>col. STATUS_COLOR (PS s) = Inr col)
   \<and> (\<forall>r. \<exists>col. STATE_COLOR (PR r) = Inr col)
   \<and> first_line PNone = Inr '' '' \<and> first_line (PStr []) = Inr '' ''
   \<and> (\<forall>m. \<exists>l. first_line (PStr m) = Inr l)
   \<and> (list_all conforms (check_stats self) \<longrightarrow>
        (\<exists>ls. body_lines x self = Inr ls \<and> length ls = 6 + 2 * length (check_stats self)))"
  using body_lines_conforms [of self x] status_color_total state_color_total
    first_line_blank first_line_str by blast

theorem body_lines_total_witness:
  "list_all conforms (check_stats (BernardStatus_init [check_A, check_B] (PInt 7)))
   \<and> body_lines plain (BernardStatus_init [check_A, check_B] (PInt 7))
       = Inr [''Schedule count: 7'', ''Check count: 2'', [], ''Checks'', ''======'', [],
              ''  A: [OK] #5 run is OK'', ''     '',
              ''  B: [TIMEOUT] #2 run is WARNING'', ''    slow'']"
  using body_lines_total [of "BernardStatus_init [check_A, check_B] (PInt 7)" plain]
  by (simp add: BernardStatus_init_def check_A_def check_B_def conforms_def body_lines_def
        check_lines_def getitem_def exc_bind_def py_or_def splitlines_def plain_def
        show_int_def show_nat.simps digit_char_def)

text \<open>
  C8. For every list of checks and every schedule count, the dict that \<^verbatim>\<open>to_dict\<close>
  returns for the snapshot built from them has, under \<^verbatim>\<open>checks\<close>, the list of the
  checks' stats, one for each check and in the order of the checks, so as many as
  there are checks, and under \<^verbatim>\<open>schedule_count\<close> the value passed at construction,
  whatever the base class has put into the dict.
\<close>

theorem to_dict_round_trip:
  "map_of (to_dict status_info (BernardStatus_init checks sc)) ''checks''
     = Some (PList (map (\<lambda>c. PDict (get_status c)) checks))
   \<and> length (map (\<lambda>c. PDict (get_status c)) checks) = length checks
   \<and> map_of (to_dict status_info (BernardStatus_init checks sc)) ''schedule_count'' = Some sc"
  by (simp add: to_dict_def BernardStatus_init_def update_conv' comp_def)

section \<open>Loading the configuration\<close>

lemma get_bernard_config_returns: "\<exists>logs v. get_bernard_config w = (logs, Inr v)"
  by (cases "config_path w")
     (auto simp: get_bernard_config_def parse_config_def split: option.splits)

text \<open>
  C7. Loading the configuration never raises: when the file is missing,
  \<^verbatim>\<open>get_bernard_config\<close> writes one log record at level INFO and returns the empty dict;
  when the parser fails on the content of the file, it writes one log record at level
  ERROR and returns the empty dict; and in every world it returns a value.
\<close>

theorem get_bernard_config_nonfatal:
  "(config_missing w \<longrightarrow>
      get_bernard_config w
        = ([Log INFO ''Bernard isn't configured: can't find bernard.yaml''], Inr (PDict [])))
   \<and> (config_unparsable w \<longrightarrow>
      (\<exists>path. config_path w = PStr path \<and>
         get_bernard_config w
           = ([Log ERROR (''Unable to parse yaml config in '' @ path)], Inr (PDict []))))
   \<and> (\<exists>logs v. get_bernard_config w = (logs, Inr v))"
  using get_bernard_config_returns [of w]
  by (cases "config_path w")
     (auto simp: get_bernard_config_def parse_config_def config_missing_def
        config_unparsable_def BERNARD_CONF_def split: option.splits)

theorem get_bernard_config_nonfatal_witness:
  "config_missing quiet_world
   \<and> get_bernard_config quiet_world
       = ([Log INFO ''Bernard isn't configured: can't find bernard.yaml''], Inr (PDict []))
   \<and> config_unparsable broken_yaml_world
   \<and> get_bernard_config broken_yaml_world
       = ([Log ERROR ''Unable to parse yaml config in /etc/dd-agent/bernard.yaml''],
          Inr (PDict []))"
  using get_bernard_config_nonfatal [of quiet_world]
    get_bernard_config_nonfatal [of broken_yaml_world]
  by (simp add: config_missing_def config_unparsable_def quiet_world_def
        broken_yaml_world_def)

section \<open>Invariants of the controller\<close>

lemma ready_init: "ready (Bernard_init p h a e)"
  by (simp add: ready_def Bernard_init_def)

lemma ready_exec_stmt: "ready c \<Longrightarrow> ready (exec_stmt w (pc c) c)"
  using get_bernard_config_returns [of w]
  by (cases "pc c")
     (auto simp: ready_def goto_def emit_def raise_exc_def update_status_def
        should_restart_def do_restart_def Let_def split: option.split bool.split)

lemma ready_step: "ready c \<Longrightarrow> ready (step w c)"
  by (cases "raised c") (simp_all add: step_def ready_exec_stmt)

lemma ready_handle_sigterm: "ready c \<Longrightarrow> ready (handle_sigterm c)"
  by (simp add: ready_def handle_sigterm_def emit_def)

lemma ready_do_restart: "ready c \<Longrightarrow> ready (do_restart w c)"
  by (simp add: ready_def do_restart_def emit_def raise_exc_def Let_def)

lemma ready_deliver: "ready c \<Longrightarrow> deliver w s c = Some c' \<Longrightarrow> ready c'"
  by (auto simp: deliver_def handle_sigusr1_def ready_handle_sigterm ready_do_restart
           split: option.splits handler.splits)

lemma ready_run: "ready c \<Longrightarrow> run w acts c = Some d \<Longrightarrow> ready d"
proof (induction acts arbitrary: c)
  case Nil
  then show ?case by simp
next
  case (Cons a acts)
  show ?case
  proof (cases a)
    case Step
    with Cons.prems have "run w acts (step w c) = Some d" by simp
    from Cons.IH [OF ready_step [OF Cons.prems(1)] this] show ?thesis .
  next
    case (Signal s)
    with Cons.prems obtain c' where c': "deliver w s c = Some c'" "run w acts c' = Some d"
      by (auto split: option.splits)
    from Cons.IH [OF ready_deliver [OF Cons.prems(1) c'(1)] c'(2)] show ?thesis .
  qed
qed

section \<open>Executions of the controller\<close>

lemmas run_defs = step_def goto_def emit_def raise_exc_def update_status_def
  should_restart_def do_restart_def Let_def get_bernard_config_def
  Bernard_init_def daemon_def quiet_world_def busy_world_def RESTART_INTERVAL_def
  BERNARD_CONF_def BernardStatus_init_def py_int_def

lemma run_Steps: "run w (replicate n Step) c = Some (steps w n c)"
  by (induction n arbitrary: c) simp_all

lemma startup_steps:
  "pc (steps w 9 (Bernard_init p h a e)) = L75
   \<and> raised (steps w 9 (Bernard_init p h a e)) = None"
proof -
  obtain logs v where g: "get_bernard_config w = (logs, Inr v)"
    using get_bernard_config_returns [of w] by blast
  show ?thesis
    by (simp add: eval_nat_numeral step_def Bernard_init_def g goto_def emit_def)
qed

lemma steps_add: "steps w (m + n) c = steps w n (steps w m c)"
  by (induction m arbitrary: c) simp_all

subsection \<open>The restart interval and the start time\<close>

lemma started_init: "started w (Bernard_init p h a e)"
  by (simp add: started_def Bernard_init_def)

lemma started_exec_stmt: "started w c \<Longrightarrow> started w (exec_stmt w (pc c) c)"
  using get_bernard_config_returns [of w]
  by (cases "pc c")
     (auto simp: started_def goto_def emit_def raise_exc_def update_status_def
        should_restart_def do_restart_def Let_def RESTART_INTERVAL_def
        split: option.split bool.split)

lemma started_step: "started w c \<Longrightarrow> started w (step w c)"
  by (cases "raised c") (simp_all add: step_def started_exec_stmt)

lemma started_handle_sigterm: "started w c \<Longrightarrow> started w (handle_sigterm c)"
  by (simp add: started_def handle_sigterm_def emit_def)

lemma started_do_restart: "started w c \<Longrightarrow> started w (do_restart w c)"
  by (simp add: started_def do_restart_def emit_def raise_exc_def Let_def)

lemma started_deliver: "started w c \<Longrightarrow> deliver w s c = Some c' \<Longrightarrow> started w c'"
  by (auto simp: deliver_def handle_sigusr1_def started_handle_sigterm started_do_restart
           split: option.splits handler.splits)

lemma started_run: "started w c \<Longrightarrow> run w acts c = Some d \<Longrightarrow> started w d"
proof (induction acts arbitrary: c)
  case Nil
  then show ?case by simp
next
  case (Cons a acts)
  show ?case
  proof (cases a)
    case Step
    with Cons.prems have "run w acts (step w c) = Some d" by simp
    from Cons.IH [OF started_step [OF Cons.prems(1)] this] show ?thesis .
  next
    case (Signal s)
    with Cons.prems obtain c' where c': "deliver w s c = Some c'" "run w acts c' = Some d"
      by (auto split: option.splits)
    from Cons.IH [OF started_deliver [OF Cons.prems(1) c'(1)] c'(2)] show ?thesis .
  qed
qed

text \<open>
  C6. The restart interval is 4 days in seconds, 345600, whatever the configuration
  holds: the file has no way to override it. The start-up reaches the head of the loop
  in nine statements without raising, in every world; and at every point of every
  execution (statements and signals in any order) that is at the head of the loop or
  beyond, the restart interval is 345600 and the start time is the second reading of
  the clock, the one taken just before the loop is entered: no later statement and no
  handler changes them.
\<close>

theorem restart_interval_fixed:
  "RESTART_INTERVAL = 345600
   \<and> pc (steps w 9 (Bernard_init p h a e)) = L75
   \<and> raised (steps w 9 (Bernard_init p h a e)) = None
   \<and> (run w acts (Bernard_init p h a e) = Some c \<and> 8 < pc_index (pc c) \<longrightarrow>
        restart_interval c = Some 345600 \<and> agent_start c = Some (clock w 1))"
  using started_run [OF started_init, of w acts p h a e c] startup_steps [of w p h a e]
  by (auto simp: RESTART_INTERVAL_def started_def)

theorem restart_interval_fixed_witness:
  "run quiet_world (replicate 9 Step) (daemon False) = Some (steps quiet_world 9 (daemon False))
   \<and> 8 < pc_index (pc (steps quiet_world 9 (daemon False)))
   \<and> restart_interval (steps quiet_world 9 (daemon False)) = Some 345600
   \<and> agent_start (steps quiet_world 9 (daemon False)) = Some 1"
  using restart_interval_fixed [of quiet_world "''/tmp/bernard.pid''" "''host''" False True
          "replicate 9 Step" "steps quiet_world 9 (daemon False)"]
        run_Steps [of quiet_world 9 "daemon False"]
  by (simp add: daemon_def quiet_world_def)

subsection \<open>The time of the last snapshot\<close>

lemma no_smaller_refl: "no_smaller x x" by (cases x) simp_all

lemma no_smaller_trans: "no_smaller x y \<Longrightarrow> no_smaller y z \<Longrightarrow> no_smaller x z"
  by (cases x; cases y; cases z) simp_all

lemma not_ahead_init: "not_ahead w (Bernard_init p h a e)"
  by (simp add: not_ahead_def Bernard_init_def)

lemma mono_exec_stmt:
  assumes "mono (clock w)" "not_ahead w c"
  shows "no_smaller (last_info_update c) (last_info_update (exec_stmt w (pc c) c))
         \<and> not_ahead w (exec_stmt w (pc c) c)"
proof -
  have m: "\<And>n. clock w n \<le> clock w (Suc n)" "\<And>n. clock w n \<le> clock w (Suc (Suc n))"
    using assms(1) by (simp_all add: mono_def)
  obtain logs v where g: "get_bernard_config w = (logs, Inr v)"
    using get_bernard_config_returns [of w] by blast
  from assms(2) show ?thesis
    by (cases "pc c")
       (auto simp: not_ahead_def goto_def emit_def raise_exc_def update_status_def g
          should_restart_def do_restart_def Let_def no_smaller_refl
          intro: order_trans [OF _ m(1)] order_trans [OF _ m(2)] m
          split: option.splits bool.split)
qed

lemma mono_step:
  "mono (clock w) \<Longrightarrow> not_ahead w c \<Longrightarrow>
   no_smaller (last_info_update c) (last_info_update (step w c)) \<and> not_ahead w (step w c)"
  by (cases "raised c") (simp_all add: step_def mono_exec_stmt no_smaller_refl)

lemma deliver_keeps_clock:
  "deliver w s c = Some c' \<Longrightarrow>
   last_info_update c' = last_info_update c \<and> clock_reads c' = clock_reads c"
  by (auto simp: deliver_def handle_sigusr1_def handle_sigterm_def do_restart_def
        emit_def raise_exc_def Let_def split: option.splits handler.splits)

lemma mono_run:
  "mono (clock w) \<Longrightarrow> not_ahead w c \<Longrightarrow> run w acts c = Some d \<Longrightarrow>
   no_smaller (last_info_update c) (last_info_update d) \<and> not_ahead w d"
proof (induction acts arbitrary: c)
  case Nil
  then show ?case by (simp add: no_smaller_refl)
next
  case (Cons a acts)
  show ?case
  proof (cases a)
    case Step
    with Cons.prems have r: "run w acts (step w c) = Some d" by simp
    from mono_step [OF Cons.prems(1,2)]
    have s: "no_smaller (last_info_update c) (last_info_update (step w c))"
      "not_ahead w (step w c)" by simp_all
    from Cons.IH [OF Cons.prems(1) s(2) r] s(1) show ?thesis
      by (blast intro: no_smaller_trans)
  next
    case (Signal s)
    with Cons.prems obtain c' where c': "deliver w s c = Some c'" "run w acts c' = Some d"
      by (auto split: option.splits)
    from deliver_keeps_clock [OF c'(1)] Cons.prems(2) have "not_ahead w c'"
      by (auto simp: not_ahead_def split: option.splits)
    from Cons.IH [OF Cons.prems(1) this c'(2)] deliver_keeps_clock [OF c'(1)]
    show ?thesis by simp
  qed
qed

text \<open>
  C9. If the clock never goes back, \<^verbatim>\<open>last_info_update\<close> never decreases: for any two
  points \<open>c\<close> and then \<open>d\<close> of an execution (statements and signals in any order), the
  value at \<open>d\<close> is no smaller than the value at \<open>c\<close>, and once set it stays set. The
  start-up assignment is the first, so it has no previous value to compare with.
\<close>

theorem last_info_update_monotone:
  assumes "mono (clock w)"
    and "run w acts (Bernard_init p h a e) = Some c"
    and "run w acts' c = Some d"
  shows "no_smaller (last_info_update c) (last_info_update d)"
proof -
  from mono_run [OF assms(1) not_ahead_init assms(2)] have "not_ahead w c" by simp
  from mono_run [OF assms(1) this assms(3)] show ?thesis by simp
qed

lemma busy_at_loop: "last_info_update (steps busy_world 9 (daemon False)) = Some 0"
  by (simp add: eval_nat_numeral run_defs)

lemma busy_after_status: "last_info_update (steps busy_world 14 (daemon False)) = Some 60"
  by (simp add: eval_nat_numeral run_defs)

theorem last_info_update_monotone_witness:
  "mono (clock busy_world)
   \<and> run busy_world (replicate 9 Step) (daemon False)
       = Some (steps busy_world 9 (daemon False))
   \<and> run busy_world (replicate 5 Step) (steps busy_world 9 (daemon False))
       = Some (steps busy_world 14 (daemon False))
   \<and> last_info_update (steps busy_world 9 (daemon False)) = Some 0
   \<and> last_info_update (steps busy_world 14 (daemon False)) = Some 60
   \<and> no_smaller (last_info_update (steps busy_world 9 (daemon False)))
        (last_info_update (steps busy_world 14 (daemon False)))"
proof -
  have m: "mono (clock busy_world)"
    by (simp add: mono_def busy_world_def quiet_world_def)
  have r1: "run busy_world (replicate 9 Step) (Bernard_init ''/tmp/bernard.pid'' ''host'' False True)
       = Some (steps busy_world 9 (daemon False))"
    by (simp add: run_Steps daemon_def)
  have r2: "run busy_world (replicate 5 Step) (steps busy_world 9 (daemon False))
       = Some (steps busy_world 14 (daemon False))"
    using steps_add [of busy_world 9 5 "daemon False"] by (simp add: run_Steps)
  from last_info_update_monotone [OF m r1 r2] m r1 r2 busy_at_loop busy_after_status
  show ?thesis by (simp add: daemon_def)
qed

section \<open>The iteration of the main loop\<close>

lemma in_loop_fields:
  assumes "ready c" "8 < pc_index (pc c)"
  obtains sch l i st where "scheduler c = Some sch" "last_info_update c = Some l"
    "restart_interval c = Some i" "agent_start c = Some st"
  using assms by (auto simp: ready_def)

lemmas world_defs = quiet_world_def busy_world_def overdue_world_def fraction_world_def

lemmas stmt_defs = step_def goto_def emit_def raise_exc_def update_status_def
  should_restart_def do_restart_def Let_def module_globals_def

lemma worlds_unconfigured:
  "config_path quiet_world = PNone" "config_path overdue_world = PNone"
  "config_path fraction_world = PNone" "config_path busy_world = PNone"
  by (simp_all add: world_defs)

lemma at_loop_unconfigured:
  assumes "config_path w = PNone"
  shows "steps w 9 (Bernard_init p h a e) =
    \<lparr>pc = L75, run_forever = True, autorestart = a, start_event = e, hostname = h,
     scheduler = Some (h, PDict []),
     handlers = [SIGTERM \<mapsto> H_sigterm, SIGUSR1 \<mapsto> H_sigusr1, SIGINT \<mapsto> H_sigterm],
     bernard_config = Some (PDict []), last_info_update = Some (clock w 0),
     restart_interval = Some 345600, agent_start = Some (clock w 1), wait_time = None,
     clock_reads = 2, wait_time_calls = 0, process_calls = 0,
     events = [WatchdogReset None,
               Log INFO ''Bernard isn't configured: can't find bernard.yaml'',
               SchedulerFromConfig h (PDict []),
               Persist (BernardStatus_init (sched_checks w 0) (PInt 0))],
     raised = None\<rparr>"
  using assms
  by (simp add: eval_nat_numeral step_def goto_def emit_def get_bernard_config_def
        Bernard_init_def RESTART_INTERVAL_def BERNARD_CONF_def)

lemma steps_split:
  "steps w 12 c = steps w 3 (steps w 9 c)"
  "steps w 13 c = steps w 4 (steps w 9 c)"
  "steps w 14 c = steps w 5 (steps w 9 c)"
  "steps w 17 c = steps w 3 (steps w 14 c)"
proof -
  have e: "(12::nat) = 9 + 3" "(13::nat) = 9 + 4" "(14::nat) = 9 + 5" "(17::nat) = 14 + 3"
    by simp_all
  show "steps w 12 c = steps w 3 (steps w 9 c)" unfolding e(1) by (rule steps_add)
  show "steps w 13 c = steps w 4 (steps w 9 c)" unfolding e(2) by (rule steps_add)
  show "steps w 14 c = steps w 5 (steps w 9 c)" unfolding e(3) by (rule steps_add)
  show "steps w 17 c = steps w 3 (steps w 14 c)" unfolding e(4) by (rule steps_add)
qed

subsection \<open>The test of the age\<close>

text \<open>
  C5. The age test is made in every iteration: from the head of the loop, with the flag
  still set, the controller executes the scheduler step and the query of the wait time
  and stands at the test of line 82. There the restart transition is taken, that is
  \<^verbatim>\<open>_do_restart\<close> runs and ends the process, if and only if the automatic restart is
  enabled and the clock minus the start time is strictly greater than the restart
  interval; the process ends at this statement in no other case, and with the automatic
  restart disabled control goes on to line 86 with nothing done, whatever the clock.
\<close>

theorem restart_check_every_iteration:
  assumes "run w acts (Bernard_init p h a e) = Some c"
    and "pc c = L75" and "raised c = None" and "run_forever c"
  shows "pc (steps w 3 c) = L82 \<and> raised (steps w 3 c) = None
    \<and> (restart_taken (steps w 3 c) (steps w 4 c)
         \<longleftrightarrow> autorestart c \<and> age_exceeded w (steps w 3 c))
    \<and> (raised (steps w 4 c) \<noteq> None \<longleftrightarrow> autorestart c \<and> age_exceeded w (steps w 3 c))
    \<and> (\<not> autorestart c \<longrightarrow>
          pc (steps w 4 c) = L86 \<and> events (steps w 4 c) = events (steps w 3 c))"
proof -
  have r: "ready c" using ready_run [OF ready_init assms(1)] .
  from assms(2) have "8 < pc_index (pc c)" by simp
  from in_loop_fields [OF r this] obtain sch l i st where
    f: "scheduler c = Some sch" "last_info_update c = Some l"
       "restart_interval c = Some i" "agent_start c = Some st" by blast
  show ?thesis
    using assms(2-4) f
    by (simp add: eval_nat_numeral step_def goto_def emit_def raise_exc_def
          should_restart_def do_restart_def Let_def restart_taken_def age_exceeded_def
          events_since_def module_globals_def split: bool.split)
qed

text \<open>
  An agent older than the restart interval, with the automatic restart enabled: the
  first iteration takes the restart transition.
\<close>

theorem restart_check_every_iteration_witness:
  "run overdue_world (replicate 9 Step) (daemon True) = Some (steps overdue_world 9 (daemon True))
   \<and> pc (steps overdue_world 9 (daemon True)) = L75
   \<and> raised (steps overdue_world 9 (daemon True)) = None
   \<and> run_forever (steps overdue_world 9 (daemon True))
   \<and> autorestart (steps overdue_world 9 (daemon True))
   \<and> age_exceeded overdue_world (steps overdue_world 3 (steps overdue_world 9 (daemon True)))
   \<and> restart_taken (steps overdue_world 3 (steps overdue_world 9 (daemon True)))
        (steps overdue_world 4 (steps overdue_world 9 (daemon True)))"
proof -
  note c9 = at_loop_unconfigured [OF worlds_unconfigured(2), of "''/tmp/bernard.pid''" "''host''" True True]
  have r: "run overdue_world (replicate 9 Step) (Bernard_init ''/tmp/bernard.pid'' ''host'' True True)
      = Some (steps overdue_world 9 (daemon True))"
    by (simp add: run_Steps daemon_def)
  have h: "pc (steps overdue_world 9 (daemon True)) = L75"
    "raised (steps overdue_world 9 (daemon True)) = None"
    "run_forever (steps overdue_world 9 (daemon True))"
    "autorestart (steps overdue_world 9 (daemon True))"
    by (simp_all add: daemon_def c9)
  have a: "age_exceeded overdue_world (steps overdue_world 3 (steps overdue_world 9 (daemon True)))"
    unfolding daemon_def c9
    by (simp add: eval_nat_numeral stmt_defs age_exceeded_def overdue_world_def quiet_world_def)
  from restart_check_every_iteration [OF r h(1,2,3)] r h a show ?thesis
    by (simp add: daemon_def)
qed

subsection \<open>The update of the status\<close>

text \<open>
  C1, as amended. In every iteration in which the restart transition is not taken at
  line 82, control reaches line 86, and there a snapshot is persisted if and only if the
  clock is more than 10 seconds past the last persisted time or the wait time is greater
  than 10; when it is, the snapshot is built from the scheduler's checks and schedule
  count and \<^verbatim>\<open>last_info_update\<close> becomes a new reading of the clock, and when it is
  not, nothing is emitted and \<^verbatim>\<open>last_info_update\<close> is unchanged.
\<close>

theorem status_update_when_due:
  assumes "run w acts (Bernard_init p h a e) = Some c"
    and "pc c = L75" and "raised c = None" and "run_forever c"
    and "\<not> (autorestart c \<and> age_exceeded w c)"
  shows "pc (steps w 4 c) = L86 \<and> raised (steps w 4 c) = None
    \<and> pc (steps w 5 c) = L93 \<and> raised (steps w 5 c) = None
    \<and> (list_ex is_Persist (events_since c (steps w 5 c)) \<longleftrightarrow> status_due w (steps w 4 c))
    \<and> events_since (steps w 4 c) (steps w 5 c)
        = (if status_due w (steps w 4 c)
           then [Persist (BernardStatus_init (sched_checks w (process_calls (steps w 4 c)))
                            (sched_schedule_count w (process_calls (steps w 4 c))))]
           else [])
    \<and> last_info_update (steps w 5 c)
        = (if status_due w (steps w 4 c)
           then Some (clock w (Suc (clock_reads (steps w 4 c))))
           else last_info_update (steps w 4 c))"
proof -
  have r: "ready c" using ready_run [OF ready_init assms(1)] .
  from assms(2) have "8 < pc_index (pc c)" by simp
  from in_loop_fields [OF r this] obtain sch l i st where
    f: "scheduler c = Some sch" "last_info_update c = Some l"
       "restart_interval c = Some i" "agent_start c = Some st" by blast
  show ?thesis
    using assms(2-5) f
    by (simp add: eval_nat_numeral step_def goto_def emit_def raise_exc_def
          should_restart_def do_restart_def update_status_def Let_def age_exceeded_def
          status_due_def events_since_def)
qed

text \<open>
  Two iterations without automatic restart: two seconds after the last snapshot with a
  wait of three seconds nothing is persisted; with a wait of eleven seconds a snapshot
  is persisted.
\<close>

theorem status_update_when_due_witness:
  "run quiet_world (replicate 9 Step) (daemon False) = Some (steps quiet_world 9 (daemon False))
   \<and> pc (steps quiet_world 9 (daemon False)) = L75
   \<and> raised (steps quiet_world 9 (daemon False)) = None
   \<and> run_forever (steps quiet_world 9 (daemon False))
   \<and> \<not> (autorestart (steps quiet_world 9 (daemon False))
          \<and> age_exceeded quiet_world (steps quiet_world 9 (daemon False)))
   \<and> \<not> status_due quiet_world (steps quiet_world 4 (steps quiet_world 9 (daemon False)))
   \<and> \<not> list_ex is_Persist (events_since (steps quiet_world 9 (daemon False))
            (steps quiet_world 5 (steps quiet_world 9 (daemon False))))
   \<and> run overdue_world (replicate 9 Step) (daemon False)
        = Some (steps overdue_world 9 (daemon False))
   \<and> \<not> (autorestart (steps overdue_world 9 (daemon False))
          \<and> age_exceeded overdue_world (steps overdue_world 9 (daemon False)))
   \<and> wait_time (steps overdue_world 4 (steps overdue_world 9 (daemon False))) = Some 11
   \<and> status_due overdue_world (steps overdue_world 4 (steps overdue_world 9 (daemon False)))
   \<and> list_ex is_Persist (events_since (steps overdue_world 9 (daemon False))
          (steps overdue_world 5 (steps overdue_world 9 (daemon False))))"
proof -
  note q9 = at_loop_unconfigured [OF worlds_unconfigured(1), of "''/tmp/bernard.pid''" "''host''" False True]
  note o9 = at_loop_unconfigured [OF worlds_unconfigured(2), of "''/tmp/bernard.pid''" "''host''" False True]
  have rq: "run quiet_world (replicate 9 Step) (Bernard_init ''/tmp/bernard.pid'' ''host'' False True)
      = Some (steps quiet_world 9 (daemon False))"
    by (simp add: run_Steps daemon_def)
  have ro: "run overdue_world (replicate 9 Step) (Bernard_init ''/tmp/bernard.pid'' ''host'' False True)
      = Some (steps overdue_world 9 (daemon False))"
    by (simp add: run_Steps daemon_def)
  have hq: "pc (steps quiet_world 9 (daemon False)) = L75"
    "raised (steps quiet_world 9 (daemon False)) = None"
    "run_forever (steps quiet_world 9 (daemon False))"
    "\<not> (autorestart (steps quiet_world 9 (daemon False))
          \<and> age_exceeded quiet_world (steps quiet_world 9 (daemon False)))"
    by (simp_all add: daemon_def q9)
  have ho: "pc (steps overdue_world 9 (daemon False)) = L75"
    "raised (steps overdue_world 9 (daemon False)) = None"
    "run_forever (steps overdue_world 9 (daemon False))"
    "\<not> (autorestart (steps overdue_world 9 (daemon False))
          \<and> age_exceeded overdue_world (steps overdue_world 9 (daemon False)))"
    by (simp_all add: daemon_def o9)
  have dq: "\<not> status_due quiet_world (steps quiet_world 4 (steps quiet_world 9 (daemon False)))"
    unfolding daemon_def q9
    by (simp add: eval_nat_numeral stmt_defs status_due_def quiet_world_def)
  have do: "wait_time (steps overdue_world 4 (steps overdue_world 9 (daemon False))) = Some 11"
    "status_due overdue_world (steps overdue_world 4 (steps overdue_world 9 (daemon False)))"
    unfolding daemon_def o9
    by (simp_all add: eval_nat_numeral stmt_defs status_due_def overdue_world_def
          quiet_world_def)
  from status_update_when_due [OF rq hq] status_update_when_due [OF ro ho] rq ro hq ho dq do
  show ?thesis by (simp add: daemon_def)
qed

text \<open>
  C1 as stated fails in an iteration that takes the restart transition: the agent is
  older than the restart interval, the automatic restart is enabled and the wait time
  is 11, so the condition of line 86 holds, yet the process ends at line 82 and no
  snapshot is persisted in that iteration.
\<close>

theorem restart_preempts_status_update:
  "pc (steps overdue_world 9 (daemon True)) = L75
   \<and> run_forever (steps overdue_world 9 (daemon True))
   \<and> wait_time (steps overdue_world 12 (daemon True)) = Some 11
   \<and> status_due overdue_world (steps overdue_world 12 (daemon True))
   \<and> raised (steps overdue_world 13 (daemon True)) = Some NameError
   \<and> \<not> list_ex is_Persist (events_since (steps overdue_world 9 (daemon True))
            (steps overdue_world 14 (daemon True)))"
  unfolding steps_split daemon_def at_loop_unconfigured [OF worlds_unconfigured(2)]
  by (simp add: eval_nat_numeral stmt_defs status_due_def events_since_def
        overdue_world_def quiet_world_def)

subsection \<open>The watchdog and the sleep\<close>

text \<open>
  C2, as amended. In every iteration that is still running at line 93, the controller
  resets the watchdog with the wait time truncated to an integer as margin (for a wait
  time that is not negative: at most the wait time, and less than one second below it),
  then sleeps, and does nothing else before it is back at the head of the loop; the
  sleep lasts what a second call of \<^verbatim>\<open>scheduler.wait_time()\<close> returns.
\<close>

theorem watchdog_reset_before_sleep:
  assumes "run w acts (Bernard_init p h a e) = Some c"
    and "pc c = L93" and "raised c = None" and "run_forever c"
  shows "\<exists>wt. wait_time c = Some wt
      \<and> events_since c (steps w 3 c)
          = [WatchdogReset (Some (py_int wt)), Sleep (sched_wait_time w (wait_time_calls c))]
      \<and> (0 \<le> wt \<longrightarrow> real_of_int (py_int wt) \<le> wt \<and> wt < real_of_int (py_int wt) + 1)
      \<and> pc (steps w 3 c) = L75 \<and> raised (steps w 3 c) = None"
proof -
  have r: "ready c" using ready_run [OF ready_init assms(1)] .
  from assms(2) have "8 < pc_index (pc c)" by simp
  from in_loop_fields [OF r this] obtain sch l i st where
    f: "scheduler c = Some sch" by blast
  from r assms(2) obtain wt where wt: "wait_time c = Some wt" by (auto simp: ready_def)
  have "0 \<le> wt \<longrightarrow> real_of_int (py_int wt) \<le> wt \<and> wt < real_of_int (py_int wt) + 1"
    by (auto simp: py_int_def)
  then show ?thesis
    using assms(2-4) f wt
    by (simp add: eval_nat_numeral step_def goto_def emit_def raise_exc_def Let_def
          events_since_def)
qed

lemma fraction_at_93:
  "steps fraction_world 14 (daemon False) =
    \<lparr>pc = L93, run_forever = True, autorestart = False, start_event = True,
     hostname = ''host'', scheduler = Some (''host'', PDict []),
     handlers = [SIGTERM \<mapsto> H_sigterm, SIGUSR1 \<mapsto> H_sigusr1, SIGINT \<mapsto> H_sigterm],
     bernard_config = Some (PDict []), last_info_update = Some 0,
     restart_interval = Some 345600, agent_start = Some 1, wait_time = Some (37 / 10),
     clock_reads = 3, wait_time_calls = 1, process_calls = 1,
     events = [WatchdogReset None,
               Log INFO ''Bernard isn't configured: can't find bernard.yaml'',
               SchedulerFromConfig ''host'' (PDict []),
               Persist \<lparr>check_stats = [get_status check_A, get_status check_B],
                        schedule_count = PInt 0\<rparr>,
               SchedulerProcess],
     raised = None\<rparr>"
  unfolding steps_split daemon_def at_loop_unconfigured [OF worlds_unconfigured(3)]
  by (simp add: eval_nat_numeral stmt_defs fraction_world_def quiet_world_def
        BernardStatus_init_def)

text \<open>
  The scheduler asks for 3.7 seconds, then for 3.2 seconds: the margin is 3 and the
  sleep lasts 3.2 seconds.
\<close>

theorem watchdog_reset_before_sleep_witness:
  "run fraction_world (replicate 14 Step) (daemon False)
     = Some (steps fraction_world 14 (daemon False))
   \<and> pc (steps fraction_world 14 (daemon False)) = L93
   \<and> raised (steps fraction_world 14 (daemon False)) = None
   \<and> run_forever (steps fraction_world 14 (daemon False))
   \<and> wait_time (steps fraction_world 14 (daemon False)) = Some (37 / 10)
   \<and> events_since (steps fraction_world 14 (daemon False))
        (steps fraction_world 3 (steps fraction_world 14 (daemon False)))
       = [WatchdogReset (Some 3), Sleep (16 / 5)]"
proof -
  have r: "run fraction_world (replicate 14 Step) (Bernard_init ''/tmp/bernard.pid'' ''host'' False True)
      = Some (steps fraction_world 14 (daemon False))"
    by (simp add: run_Steps daemon_def)
  have h: "pc (steps fraction_world 14 (daemon False)) = L93"
    "raised (steps fraction_world 14 (daemon False)) = None"
    "run_forever (steps fraction_world 14 (daemon False))"
    "wait_time (steps fraction_world 14 (daemon False)) = Some (37 / 10)"
    "wait_time_calls (steps fraction_world 14 (daemon False)) = 1"
    unfolding fraction_at_93 by simp_all
  have w: "sched_wait_time fraction_world 1 = 16 / 5" "py_int (37 / 10) = 3"
    by (simp_all add: fraction_world_def quiet_world_def py_int_def)
  from watchdog_reset_before_sleep [OF r h(1,2,3)] h(4,5) w
  have "events_since (steps fraction_world 14 (daemon False))
        (steps fraction_world 3 (steps fraction_world 14 (daemon False)))
       = [WatchdogReset (Some 3), Sleep (16 / 5)]" by auto
  with r h show ?thesis by (simp add: daemon_def)
qed

text \<open>
  C2 as stated fails in that iteration: with a wait time of 3.7 seconds the watchdog
  gets a margin of 3 seconds, which is less, and the sleep lasts 3.2 seconds, which is
  not the wait time.
\<close>

theorem sleep_differs_from_wait_time:
  "pc (steps fraction_world 14 (daemon False)) = L93
   \<and> run_forever (steps fraction_world 14 (daemon False))
   \<and> wait_time (steps fraction_world 14 (daemon False)) = Some (37 / 10)
   \<and> events_since (steps fraction_world 14 (daemon False)) (steps fraction_world 17 (daemon False))
       = [WatchdogReset (Some 3), Sleep (16 / 5)]
   \<and> \<not> covers_sleep (37 / 10)
         (events_since (steps fraction_world 14 (daemon False))
            (steps fraction_world 17 (daemon False)))"
  unfolding steps_split(4) fraction_at_93
  by (simp add: eval_nat_numeral stmt_defs events_since_def py_int_def
        fraction_world_def quiet_world_def)

section \<open>Signals\<close>

lemma last_action_append:
  "last_action (xs @ ys) = (case last_action ys of Some a \<Rightarrow> Some a | None \<Rightarrow> last_action xs)"
  by (induction xs) (auto split: option.splits)

lemma halted_steps: "raised c \<noteq> None \<Longrightarrow> steps w n c = c"
  by (induction n) (auto simp: step_def)

lemma stopping_exec_stmt:
  assumes "stopping w c" "pc c \<noteq> L104"
  shows "stopping w (exec_stmt w (pc c) c)
    \<and> Suc (statements_left (pc (exec_stmt w (pc c) c))) = statements_left (pc c)
    \<and> count_list (events (exec_stmt w (pc c) c)) SchedulerProcess
         + scheduler_steps_left (pc (exec_stmt w (pc c) c))
       = count_list (events c) SchedulerProcess + scheduler_steps_left (pc c)"
proof -
  obtain logs v where g: "get_bernard_config w = (logs, Inr v)"
    using get_bernard_config_returns [of w] by blast
  have nl: "count_list logs SchedulerProcess = 0"
    using g by (cases "config_path w")
      (auto simp: get_bernard_config_def parse_config_def split: option.splits if_splits)
  show ?thesis using assms
    by (cases "pc c")
       (auto simp: stopping_def ready_def cleaned_def restart_pending_def age_exceeded_def
          scheduler_steps_left_def g nl goto_def emit_def raise_exc_def update_status_def
          should_restart_def do_restart_def Let_def last_action_append
          split: option.split bool.split)
qed

lemma stopping_exit:
  assumes "stopping w c" "pc c = L104"
  shows "exited_cleanly c (step w c)"
  using assms
  by (auto simp: stopping_def cleaned_def exited_cleanly_def step_def emit_def raise_exc_def
        last_action_append scheduler_steps_left_def)

lemma stopping_steps:
  "stopping w c \<Longrightarrow> statements_left (pc c) = n \<Longrightarrow> exited_cleanly c (steps w n c)"
proof (induction n arbitrary: c)
  case 0
  then show ?case by (cases "pc c") simp_all
next
  case (Suc n)
  show ?case
  proof (cases "pc c = L104")
    case True
    with Suc.prems have "n = 0" by simp
    with stopping_exit [OF Suc.prems(1) True] show ?thesis by simp
  next
    case False
    from Suc.prems(1) have nr: "raised c = None" by (simp add: stopping_def)
    then have s: "step w c = exec_stmt w (pc c) c" by (simp add: step_def)
    from stopping_exec_stmt [OF Suc.prems(1) False] s Suc.prems(2)
    have st: "stopping w (step w c)" "statements_left (pc (step w c)) = n"
      and cnt: "count_list (events (step w c)) SchedulerProcess
                  + scheduler_steps_left (pc (step w c))
                = count_list (events c) SchedulerProcess + scheduler_steps_left (pc c)"
      by simp_all
    from Suc.IH [OF st] cnt show ?thesis
      by (simp add: exited_cleanly_def)
  qed
qed

lemma statements_left_le: "statements_left l \<le> 12"
  by (cases l) simp_all

lemma stopping_exits:
  assumes "stopping w c"
  shows "exited_cleanly c (steps w 12 c)"
proof -
  let ?n = "statements_left (pc c)"
  from stopping_steps [OF assms refl] have e: "exited_cleanly c (steps w ?n c)" .
  then have "raised (steps w ?n c) \<noteq> None" by (simp add: exited_cleanly_def)
  from halted_steps [OF this, of w "12 - ?n"] steps_add [of w ?n "12 - ?n" c]
    statements_left_le [of "pc c"]
  have "steps w 12 c = steps w ?n c" by simp
  with e show ?thesis by simp
qed

lemma events_exec_stmt_prefix: "\<exists>ys. events (exec_stmt w (pc c) c) = events c @ ys"
  by (cases "pc c")
     (auto simp: goto_def emit_def raise_exc_def update_status_def
        should_restart_def do_restart_def Let_def split: option.split bool.split prod.split sum.split)

lemma events_steps_prefix: "\<exists>ys. events (steps w n c) = events c @ ys"
proof (induction n arbitrary: c)
  case 0
  then show ?case by simp
next
  case (Suc n)
  have "\<exists>ys. events (step w c) = events c @ ys"
    using events_exec_stmt_prefix [of w c] by (cases "raised c") (auto simp: step_def)
  then obtain ys where ys: "events (step w c) = events c @ ys" by blast
  from Suc.IH [of "step w c"] obtain zs where "events (steps w n (step w c)) = events (step w c) @ zs"
    by blast
  with ys show ?case by simp
qed

lemma deliver_graceful:
  assumes "ready c" "s = SIGTERM \<or> s = SIGINT" "deliver w s c = Some c'"
  shows "c' = handle_sigterm c \<and> raised c = None"
  using assms
  by (auto simp: deliver_def ready_def split: option.splits handler.splits)

lemma cleaned_init: "cleaned (Bernard_init p h a e)"
  by (simp add: cleaned_def Bernard_init_def)

lemma cleaned_exec_stmt: "cleaned c \<Longrightarrow> cleaned (exec_stmt w (pc c) c)"
  by (cases "pc c")
     (auto simp: cleaned_def goto_def emit_def raise_exc_def update_status_def
        should_restart_def do_restart_def Let_def last_action_append
        split: option.split bool.split prod.split sum.split)

lemma cleaned_step: "cleaned c \<Longrightarrow> cleaned (step w c)"
  by (cases "raised c") (simp_all add: step_def cleaned_exec_stmt)

lemma cleaned_handle_sigterm: "cleaned c \<Longrightarrow> cleaned (handle_sigterm c)"
  by (simp add: cleaned_def handle_sigterm_def emit_def last_action_append)

lemma cleaned_do_restart: "cleaned c \<Longrightarrow> cleaned (do_restart w c)"
  by (simp add: cleaned_def do_restart_def emit_def raise_exc_def Let_def last_action_append)

lemma cleaned_deliver: "cleaned c \<Longrightarrow> deliver w s c = Some c' \<Longrightarrow> cleaned c'"
  by (auto simp: deliver_def handle_sigusr1_def cleaned_handle_sigterm cleaned_do_restart
           split: option.splits handler.splits)

lemma cleaned_run: "cleaned c \<Longrightarrow> run w acts c = Some d \<Longrightarrow> cleaned d"
proof (induction acts arbitrary: c)
  case Nil
  then show ?case by simp
next
  case (Cons a acts)
  show ?case
  proof (cases a)
    case Step
    with Cons.prems have "run w acts (step w c) = Some d" by simp
    from Cons.IH [OF cleaned_step [OF Cons.prems(1)] this] show ?thesis .
  next
    case (Signal s)
    with Cons.prems obtain c' where c': "deliver w s c = Some c'" "run w acts c' = Some d"
      by (auto split: option.splits)
    from Cons.IH [OF cleaned_deliver [OF Cons.prems(1) c'(1)] c'(2)] show ?thesis .
  qed
qed

lemma handle_sigterm_flag:
  "run_forever (handle_sigterm c) = False" "raised (handle_sigterm c) = raised c"
  "restart_pending w (handle_sigterm c) = restart_pending w c"
  by (simp_all add: restart_pending_def age_exceeded_def handle_sigterm_def emit_def
        split: option.split)

text \<open>
  C3, as amended. When SIGTERM or SIGINT is delivered at any point of any execution
  where its handler is installed and the process has not ended, the flag is cleared;
  and unless the test of the age is still ahead in the current iteration and succeeds,
  the process, left to run with no further signal, ends within twelve statements by
  \<^verbatim>\<open>sys.exit(0)\<close>, having executed at most one scheduler step since the signal, and the
  last thing it did before the exit, apart from logging, is the removal of the
  persisted snapshot.
\<close>

theorem graceful_stop_exits:
  assumes "run w acts (Bernard_init p h a e) = Some c"
    and "s = SIGTERM \<or> s = SIGINT"
    and "deliver w s c = Some c'"
    and "\<not> restart_pending w c"
  shows "run_forever c' = False
    \<and> raised (steps w 12 c') = Some (SystemExit 0)
    \<and> exit_status (SystemExit 0) = 0
    \<and> count_list (events_since c' (steps w 12 c')) SchedulerProcess \<le> 1
    \<and> last_action (events (steps w 12 c')) = Some RemoveLatestStatus"
proof -
  have r: "ready c" using ready_run [OF ready_init assms(1)] .
  have cl: "cleaned c" using cleaned_run [OF cleaned_init assms(1)] .
  from deliver_graceful [OF r assms(2,3)] have c': "c' = handle_sigterm c" "raised c = None"
    by simp_all
  have st: "stopping w c'"
    using r cl c'(2) assms(4)
    by (simp add: stopping_def c'(1) ready_handle_sigterm cleaned_handle_sigterm
          handle_sigterm_flag)
  from stopping_exits [OF st] have e: "exited_cleanly c' (steps w 12 c')" .
  obtain ys where ys: "events (steps w 12 c') = events c' @ ys"
    using events_steps_prefix [of w 12 c'] by blast
  from e ys have "count_list ys SchedulerProcess = scheduler_steps_left (pc c')"
    by (simp add: exited_cleanly_def)
  then have "count_list (events_since c' (steps w 12 c')) SchedulerProcess \<le> 1"
    by (simp add: events_since_def ys scheduler_steps_left_def)
  with e show ?thesis
    by (simp add: exited_cleanly_def c'(1) handle_sigterm_flag)
qed

lemma quiet_at_77:
  "steps quiet_world 10 (daemon False) =
    \<lparr>pc = L77, run_forever = True, autorestart = False, start_event = True,
     hostname = ''host'', scheduler = Some (''host'', PDict []),
     handlers = [SIGTERM \<mapsto> H_sigterm, SIGUSR1 \<mapsto> H_sigusr1, SIGINT \<mapsto> H_sigterm],
     bernard_config = Some (PDict []), last_info_update = Some 0,
     restart_interval = Some 345600, agent_start = Some 1, wait_time = None,
     clock_reads = 2, wait_time_calls = 0, process_calls = 0,
     events = [WatchdogReset None,
               Log INFO ''Bernard isn't configured: can't find bernard.yaml'',
               SchedulerFromConfig ''host'' (PDict []),
               Persist \<lparr>check_stats = [get_status check_A, get_status check_B],
                        schedule_count = PInt 0\<rparr>],
     raised = None\<rparr>"
proof -
  have e: "(10::nat) = 9 + 1" by simp
  show ?thesis
    unfolding e steps_add daemon_def at_loop_unconfigured [OF worlds_unconfigured(1)]
    by (simp add: stmt_defs quiet_world_def BernardStatus_init_def)
qed

text \<open>
  SIGTERM arrives when the first scheduler step is about to start.
\<close>

theorem graceful_stop_exits_witness:
  "run quiet_world (replicate 10 Step) (daemon False) = Some (steps quiet_world 10 (daemon False))
   \<and> deliver quiet_world SIGTERM (steps quiet_world 10 (daemon False))
       = Some (handle_sigterm (steps quiet_world 10 (daemon False)))
   \<and> \<not> restart_pending quiet_world (steps quiet_world 10 (daemon False))
   \<and> raised (steps quiet_world 12 (handle_sigterm (steps quiet_world 10 (daemon False))))
       = Some (SystemExit 0)
   \<and> count_list (events_since (handle_sigterm (steps quiet_world 10 (daemon False)))
          (steps quiet_world 12 (handle_sigterm (steps quiet_world 10 (daemon False)))))
        SchedulerProcess \<le> 1
   \<and> last_action (events (steps quiet_world 12
          (handle_sigterm (steps quiet_world 10 (daemon False))))) = Some RemoveLatestStatus"
proof -
  have r: "run quiet_world (replicate 10 Step) (Bernard_init ''/tmp/bernard.pid'' ''host'' False True)
      = Some (steps quiet_world 10 (daemon False))"
    by (simp add: run_Steps daemon_def)
  have d: "deliver quiet_world SIGTERM (steps quiet_world 10 (daemon False))
       = Some (handle_sigterm (steps quiet_world 10 (daemon False)))"
    unfolding quiet_at_77 by (simp add: deliver_def)
  have n: "\<not> restart_pending quiet_world (steps quiet_world 10 (daemon False))"
    unfolding quiet_at_77 by (simp add: restart_pending_def)
  from graceful_stop_exits [OF r disjI1 [OF refl] d n] r d n show ?thesis
    by (simp add: daemon_def)
qed

text \<open>
  C3 as stated fails when the restart is due in the iteration in flight: SIGTERM
  arrives before the scheduler step of an agent older than the restart interval with
  the automatic restart enabled; the test of line 82 still runs, the restart transition
  is taken, and the process ends without removing the snapshot and not by
  \<^verbatim>\<open>sys.exit(0)\<close>.
\<close>

theorem restart_overrides_graceful_stop:
  "pc (steps overdue_world 10 (daemon True)) = L77
   \<and> deliver overdue_world SIGTERM (steps overdue_world 10 (daemon True))
       = Some (handle_sigterm (steps overdue_world 10 (daemon True)))
   \<and> raised (steps overdue_world 12 (handle_sigterm (steps overdue_world 10 (daemon True))))
       = Some NameError
   \<and> last_action (events (steps overdue_world 12
          (handle_sigterm (steps overdue_world 10 (daemon True)))))
       \<noteq> Some RemoveLatestStatus"
proof -
  have e: "(10::nat) = 9 + 1" by simp
  show ?thesis
    unfolding e steps_add daemon_def at_loop_unconfigured [OF worlds_unconfigured(2)]
    by (simp add: eval_nat_numeral stmt_defs deliver_def handle_sigterm_def
          overdue_world_def quiet_world_def BernardStatus_init_def)
qed

text \<open>
  C4 on the code. The module does not bind the name \<^verbatim>\<open>AgentSupervisor\<close> (it imports
  only \<^verbatim>\<open>Daemon\<close> from \<^verbatim>\<open>daemon\<close>), so \<^verbatim>\<open>_do_restart\<close> raises \<open>NameError\<close> when it
  evaluates the argument of \<^verbatim>\<open>sys.exit\<close>: on SIGUSR1 the handler clears the flag, logs,
  and the process ends at once and without removing the snapshot, but by an uncaught
  \<open>NameError\<close>, exit status 1, never by \<open>SystemExit\<close> with the restart status.
\<close>

theorem restart_signal_raises_NameError:
  "''AgentSupervisor'' \<notin> set module_globals
   \<and> raised (do_restart w c) = Some NameError
   \<and> raised (handle_sigusr1 w c) = Some NameError
   \<and> run_forever (handle_sigusr1 w c) = False
   \<and> events (handle_sigusr1 w c)
       = events c @ [Log DEBUG ''Caught sigterm. Stopping run loop.'',
                     Log INFO ''Running an auto-restart.'']
   \<and> exit_status NameError = 1
   \<and> raised (handle_sigusr1 w c) \<noteq> Some (SystemExit (RESTART_EXIT_STATUS w))
   \<and> deliver quiet_world SIGUSR1 (steps quiet_world 10 (daemon False))
       = Some (handle_sigusr1 quiet_world (steps quiet_world 10 (daemon False)))"
proof -
  have e: "(10::nat) = 9 + 1" by simp
  have d: "deliver quiet_world SIGUSR1 (steps quiet_world 10 (daemon False))
       = Some (handle_sigusr1 quiet_world (steps quiet_world 10 (daemon False)))"
    unfolding e steps_add daemon_def at_loop_unconfigured [OF worlds_unconfigured(1)]
    by (simp add: stmt_defs deliver_def)
  show ?thesis using d
    by (simp add: handle_sigusr1_def handle_sigterm_def do_restart_def emit_def raise_exc_def
          module_globals_def)
qed

end
